theory Spec2Isabelle
  imports Main "HOL-Library.Sublist" "HOL-Library.Word"
begin

unbundle bit_operations_syntax

section \<open>Data model\<close>

text \<open>
  The script \<^verbatim>\<open>.github/scripts/translate.py\<close> works on what \<^verbatim>\<open>json.load\<close> returns for
  a message catalog: a \<^verbatim>\<open>dict\<close> whose keys are strings and whose values are strings or
  further dicts. A Python dict keeps its insertion order, so a dict is an association
  list here; a character is one code point of the Python \<^verbatim>\<open>str\<close> (the model covers the
  code points below 256).
\<close>

datatype json = Str string | Obj "(string \<times> json) list"

type_synonym dict = "(string \<times> json) list"

text \<open>\<^verbatim>\<open>key in d\<close> is \<open>map_of d key \<noteq> None\<close>, and \<^verbatim>\<open>d[key]\<close> is the value found there.\<close>

text \<open>
  \<^verbatim>\<open>d[key] = value\<close>: an existing key keeps its position and gets the new value, a new key
  goes to the end.
\<close>

fun dict_set :: "'k \<Rightarrow> 'v \<Rightarrow> ('k \<times> 'v) list \<Rightarrow> ('k \<times> 'v) list" where
  "dict_set key val [] = [(key, val)]"
| "dict_set key val ((k, v) # rest) =
     (if k = key then (key, val) # rest else (k, v) # dict_set key val rest)"

text \<open>\<^verbatim>\<open>result.update(other)\<close>: every item of \<open>other\<close>, in order, is assigned into \<open>result\<close>.\<close>

fun dict_update :: "('k \<times> 'v) list \<Rightarrow> ('k \<times> 'v) list \<Rightarrow> ('k \<times> 'v) list" where
  "dict_update result [] = result"
| "dict_update result ((k, v) # other) = dict_update (dict_set k v result) other"

text \<open>Truth value of a JSON value in a Python condition: empty strings and dicts are false.\<close>

fun truthy :: "json \<Rightarrow> bool" where
  "truthy (Str s) = (s \<noteq> [])"
| "truthy (Obj d) = (d \<noteq> [])"

section \<open>Strings\<close>

text \<open>
  \<^verbatim>\<open>path.split('.')\<close>: the pieces between the dots; the result is never empty, and
  the empty string gives one empty piece.
\<close>

fun split_dot :: "string \<Rightarrow> string list" where
  "split_dot [] = [[]]"
| "split_dot (c # cs) =
     (if c = CHR ''.'' then [] # split_dot cs
      else (case split_dot cs of
              [] \<Rightarrow> [[c]]
            | w # ws \<Rightarrow> (c # w) # ws))"

text \<open>
  Whitespace as \<^verbatim>\<open>str.isspace\<close> and the pattern \<^verbatim>\<open>\s\<close> see it, among the code points below
  256: tab to carriage return, the four separators 28 to 31, space, NEL and the
  no-break space.
\<close>

definition is_space :: "char \<Rightarrow> bool" where
  "is_space c =
     (let n = of_char c :: nat
      in (9 \<le> n \<and> n \<le> 13) \<or> (28 \<le> n \<and> n \<le> 32) \<or> n = 133 \<or> n = 160)"

definition strip :: "string \<Rightarrow> string" where
  "strip s = rev (dropWhile is_space (rev (dropWhile is_space s)))"

definition startswith :: "string \<Rightarrow> string \<Rightarrow> bool" where
  "startswith s p = (take (length p) s = p)"

definition endswith :: "string \<Rightarrow> string \<Rightarrow> bool" where
  "endswith s p = (length p \<le> length s \<and> drop (length s - length p) s = p)"

text \<open>
  \<^verbatim>\<open>str.upper\<close> on the letters a to z; the script applies it to a locale code, which is
  two such letters.
\<close>

definition is_lower :: "char \<Rightarrow> bool" where
  "is_lower c = (let n = of_char c :: nat in 97 \<le> n \<and> n \<le> 122)"

definition upper :: "string \<Rightarrow> string" where
  "upper s = map (\<lambda>c. if is_lower c then char_of (of_char c - (32::nat)) else c) s"

section \<open>Key flattener and nested lookup\<close>

text \<open>
  \<^verbatim>\<open>current_path = f"{prefix}.{key}" if prefix else key\<close> (\<open>pfx\<close> is the source's \<^verbatim>\<open>prefix\<close>)
\<close>

definition current_path :: "string \<Rightarrow> string \<Rightarrow> string" where
  "current_path pfx key = (if pfx \<noteq> [] then pfx @ ''.'' @ key else key)"

text \<open>
  \<^verbatim>\<open>collect_all_keys(data, prefix)\<close>: \<open>collect_loop\<close> is its \<^verbatim>\<open>for key, value in data.items()\<close>
  loop, carrying \<^verbatim>\<open>result\<close>. The result maps a dotted path to the leaf's string.
\<close>

fun collect_all_keys :: "dict \<Rightarrow> string \<Rightarrow> (string \<times> string) list"
  and collect_loop :: "dict \<Rightarrow> string \<Rightarrow> (string \<times> string) list \<Rightarrow> (string \<times> string) list"
  where
  "collect_all_keys data pfx = collect_loop data pfx []"
| "collect_loop [] pfx result = result"
| "collect_loop ((key, Obj d) # rest) pfx result =
     collect_loop rest pfx
       (dict_update result (collect_all_keys d (current_path pfx key)))"
| "collect_loop ((key, Str s) # rest) pfx result =
     collect_loop rest pfx (dict_set (current_path pfx key) s result)"

text \<open>
  \<^verbatim>\<open>get_nested_value(obj, path)\<close>: \<open>None\<close> is Python's \<^verbatim>\<open>None\<close>; the loop over the keys
  stops with \<^verbatim>\<open>None\<close> as soon as the current value is no dict or lacks the key.
\<close>

fun get_nested_loop :: "json \<Rightarrow> string list \<Rightarrow> json option" where
  "get_nested_loop current [] = Some current"
| "get_nested_loop (Str s) (key # keys) = None"
| "get_nested_loop (Obj d) (key # keys) =
     (case map_of d key of
        None \<Rightarrow> None
      | Some v \<Rightarrow> get_nested_loop v keys)"

definition get_nested_value :: "dict \<Rightarrow> string \<Rightarrow> json option" where
  "get_nested_value obj path = get_nested_loop (Obj obj) (split_dot path)"

section \<open>Catalog merger\<close>

text \<open>
  Lines 281 to 291 of \<^verbatim>\<open>main\<close>. The loop over \<^verbatim>\<open>parts[:-1]\<close> walks down from the target
  catalog; a part that is missing, or bound to something that is no dict, is bound to a
  fresh \<^verbatim>\<open>{}\<close> first. The dict reached is then assigned \<^verbatim>\<open>parts[-1]\<close>. The Python
  mutates the nested dicts in place; the model rebuilds the spine it walked.
\<close>

definition child_dict :: "dict \<Rightarrow> string \<Rightarrow> dict" where
  "child_dict current part =
     (case map_of current part of
        Some (Obj d) \<Rightarrow> d
      | _ \<Rightarrow> [])"

fun set_path :: "dict \<Rightarrow> string list \<Rightarrow> string \<Rightarrow> string \<Rightarrow> dict" where
  "set_path current [] final translated = dict_set final (Str translated) current"
| "set_path current (part # parts) final translated =
     dict_set part (Obj (set_path (child_dict current part) parts final translated)) current"

definition set_nested :: "dict \<Rightarrow> string \<Rightarrow> string \<Rightarrow> dict" where
  "set_nested target_data full_path translated =
     (let parts = split_dot full_path
      in set_path target_data (butlast parts) (last parts) translated)"

section \<open>Change detection hashes\<close>

text \<open>
  \<^verbatim>\<open>get_hash(text)\<close> is \<^verbatim>\<open>hashlib.md5(str(text).encode('utf-8')).hexdigest()[:8]\<close>. MD5
  belongs to Python's library, not to this repository: the digest of a text's UTF-8
  encoding is a parameter \<open>md5\<close>, a 128-bit value. \<open>hexdigest\<close> writes it as 32
  lower-case hexadecimal digits, the first byte first.
\<close>

definition hex_digit :: "nat \<Rightarrow> char" where
  "hex_digit n = ''0123456789abcdef'' ! n"

definition hexdigest :: "128 word \<Rightarrow> string" where
  "hexdigest w = map (\<lambda>i. hex_digit (unat (drop_bit (4 * (31 - i)) w AND 15))) [0..<32]"

definition get_hash :: "(string \<Rightarrow> 128 word) \<Rightarrow> string \<Rightarrow> string" where
  "get_hash md5 txt = take 8 (hexdigest (md5 txt))"

section \<open>Files, environment and effects\<close>

text \<open>
  A JSON file is absent, or present with a content \<^verbatim>\<open>json.load\<close> rejects, or present with
  a JSON document. What \<^verbatim>\<open>json.load\<close> returns for a document is a dict when the document is
  an object; otherwise it is a list, a string, a number, a boolean or \<^verbatim>\<open>None\<close>, and of such
  a value the script only ever uses its kind. The files the script touches: the routing
  file (a text, \<open>None\<close> when absent), one catalog \<^verbatim>\<open>src/messages/<locale>.json\<close> per locale
  code, and the hash ledger.
\<close>

datatype non_object = Json_array | Json_string | Json_number | Json_boolean | Json_null

datatype json_doc = Object dict | NonObject non_object

datatype json_file = Absent | Malformed | Doc json_doc

record files =
  routing_ts :: "string option"
  messages :: "string \<Rightarrow> json_file"
  translation_hashes :: json_file

definition LOCALES_DIR :: string where
  "LOCALES_DIR = ''src/messages''"

definition ROUTING_FILE :: string where
  "ROUTING_FILE = ''src/i18n/routing.ts''"

definition HASHES_FILE :: string where
  "HASHES_FILE = ''src/messages/.translation_hashes.json''"

text \<open>\<^verbatim>\<open>LOCALES_DIR / f"{locale}.json"\<close>\<close>

definition locale_file :: "string \<Rightarrow> string" where
  "locale_file locale = LOCALES_DIR @ ''/'' @ locale @ ''.json''"

definition DEEPL_LANG_CODES :: "(string \<times> string) list" where
  "DEEPL_LANG_CODES =
     [(''en'', ''EN-US''), (''ru'', ''RU''), (''es'', ''ES''), (''fr'', ''FR''),
      (''it'', ''IT''), (''pt'', ''PT-BR''), (''nl'', ''NL''), (''pl'', ''PL''),
      (''uk'', ''UK''), (''ja'', ''JA''), (''zh'', ''ZH'')]"

text \<open>
  The keyword arguments of \<^verbatim>\<open>deepl_client.translate_text(**params)\<close>, and what the call
  does: it returns a result with a text, or raises. The two handlers of
  \<^verbatim>\<open>translate_text\<close> are for \<^verbatim>\<open>deepl.DeepLException\<close> and for any other \<^verbatim>\<open>Exception\<close>.
\<close>

record params =
  param_text :: string
  param_target_lang :: string
  param_preserve_formatting :: bool
  param_tag_handling :: string
  param_source_lang :: "string option"

datatype api_result = Result string | DeepLException string | OtherException string

text \<open>
  The diagnostics the script prints (errors, warnings and the changed-key notice); its
  progress lines are left out of the model.
\<close>

datatype message =
    Deepl_module_not_found
  | Api_key_not_set
  | Routing_file_not_found
  | Locales_array_not_found
  | De_json_not_found
  | No_target_locales
  | No_namespaces_found
  | Skipping_source_not_found
  | Changed_key_detected string
  | Skip_not_supported string
  | Translation_error string
  | Unexpected_error string

text \<open>
  What a run can see and change: the files, the calls made to the translation API, the
  lines printed, and the paths opened with mode \<^verbatim>\<open>"w"\<close>.
\<close>

record world =
  fs :: files
  api_calls :: "params list"
  stdout :: "message list"
  opened_for_writing :: "string list"

definition print :: "message \<Rightarrow> world \<Rightarrow> world" where
  "print m w = w\<lparr>stdout := stdout w @ [m]\<rparr>"

text \<open>
  What the process is started with: whether \<^verbatim>\<open>import deepl\<close> succeeds, the environment
  variable, the digest function, the behaviour of the translation service, the files.
\<close>

record env =
  deepl_module :: bool
  environ_DEEPL_API_KEY :: "string option"
  md5_digest :: "string \<Rightarrow> 128 word"
  deepl_translate :: "params \<Rightarrow> api_result"
  initial_files :: files

text \<open>
  How the process ends: \<^verbatim>\<open>main\<close> returns, or \<^verbatim>\<open>sys.exit(n)\<close> is called, or an exception
  nobody catches ends it with a traceback and exit code 1.
\<close>

datatype outcome = Returned | SysExit nat | Uncaught string

fun exit_code :: "outcome \<Rightarrow> nat" where
  "exit_code Returned = 0"
| "exit_code (SysExit n) = n"
| "exit_code (Uncaught e) = 1"

section \<open>Hash ledger\<close>

text \<open>
  \<^verbatim>\<open>load_hashes()\<close> returns what \<^verbatim>\<open>json.load\<close> gives, object or not, and \<^verbatim>\<open>{}\<close> when the
  file is absent or cannot be parsed. \<^verbatim>\<open>save_hashes(hashes)\<close> dumps what it is given.
\<close>

definition load_hashes :: "files \<Rightarrow> json_doc" where
  "load_hashes f =
     (case translation_hashes f of
        Absent \<Rightarrow> Object []
      | Malformed \<Rightarrow> Object []
      | Doc doc \<Rightarrow> doc)"

definition save_hashes :: "json_doc \<Rightarrow> world \<Rightarrow> world" where
  "save_hashes hashes w =
     w\<lparr>fs := (fs w)\<lparr>translation_hashes := Doc hashes\<rparr>,
       opened_for_writing := opened_for_writing w @ [HASHES_FILE]\<rparr>"

section \<open>Locale and routing reader\<close>

text \<open>
  \<^verbatim>\<open>re.search\<close> tries the pattern at every position from the left, the end of the text
  included, and takes the first match. \<open>m\<close> matches a pattern at the start of a text
  and gives its group 1.
\<close>

fun re_search :: "(string \<Rightarrow> 'a option) \<Rightarrow> string \<Rightarrow> 'a option" where
  "re_search m [] = m []"
| "re_search m (c # cs) =
     (case m (c # cs) of
        Some g \<Rightarrow> Some g
      | None \<Rightarrow> re_search m cs)"

definition literal :: "string \<Rightarrow> string \<Rightarrow> string option" where
  "literal lit s = (if startswith s lit then Some (drop (length lit) s) else None)"

text \<open>
  \<^verbatim>\<open>locales\s*:\s*\[([^\]]+)\]\<close>. Each \<^verbatim>\<open>\s*\<close> is followed by a character that is no
  whitespace, and \<^verbatim>\<open>[^\]]+\<close> by the bracket it excludes, so the greedy match is the only
  one: no backtracking.
\<close>

definition locales_pattern :: "string \<Rightarrow> string option" where
  "locales_pattern s =
     Option.bind (literal ''locales'' s) (\<lambda>s1.
     Option.bind (literal '':'' (dropWhile is_space s1)) (\<lambda>s2.
     Option.bind (literal ''['' (dropWhile is_space s2)) (\<lambda>s3.
       let group1 = takeWhile (\<lambda>c. c \<noteq> CHR '']'') s3;
           s4 = dropWhile (\<lambda>c. c \<noteq> CHR '']'') s3
       in if group1 \<noteq> [] \<and> s4 \<noteq> [] then Some group1 else None)))"

text \<open>
  \<^verbatim>\<open>re.findall(r"'([a-z]{2})'", locales_str)\<close>: the matches from left to right, the search
  resuming after each match.
\<close>

fun findall_codes :: "string \<Rightarrow> string list" where
  "findall_codes (q # a # b # r # rest) =
     (if q = CHR 0x27 \<and> is_lower a \<and> is_lower b \<and> r = CHR 0x27
      then [a, b] # findall_codes rest
      else findall_codes (a # b # r # rest))"
| "findall_codes s = []"

text \<open>
  \<^verbatim>\<open>defaultLocale\s*:\s*'([a-z]{2})'\<close>; \<open>quoted_code\<close> is its last part, a locale code
  between single quotes at the start of a text.
\<close>

fun quoted_code :: "string \<Rightarrow> string option" where
  "quoted_code (q # a # b # r # rest) =
     (if q = CHR 0x27 \<and> is_lower a \<and> is_lower b \<and> r = CHR 0x27
      then Some [a, b] else None)"
| "quoted_code s = None"

definition default_locale_pattern :: "string \<Rightarrow> string option" where
  "default_locale_pattern s =
     Option.bind (literal ''defaultLocale'' s) (\<lambda>s1.
     Option.bind (literal '':'' (dropWhile is_space s1)) (\<lambda>s2.
       quoted_code (dropWhile is_space s2)))"

text \<open>\<^verbatim>\<open>get_locales_from_routing()\<close>; \<open>None\<close> is \<^verbatim>\<open>sys.exit(1)\<close>.\<close>

definition get_locales_from_routing :: "world \<Rightarrow> string list option \<times> world" where
  "get_locales_from_routing w =
     (case routing_ts (fs w) of
        None \<Rightarrow> (None, print Routing_file_not_found w)
      | Some content \<Rightarrow>
          (case re_search locales_pattern content of
             None \<Rightarrow> (None, print Locales_array_not_found w)
           | Some locales_str \<Rightarrow> (Some (findall_codes locales_str), w)))"

text \<open>
  \<^verbatim>\<open>get_default_locale()\<close>; \<^verbatim>\<open>read_text\<close> raises when the file is absent, which is \<open>Inl\<close>.
\<close>

definition get_default_locale :: "files \<Rightarrow> string + string" where
  "get_default_locale f =
     (case routing_ts f of
        None \<Rightarrow> Inl ''FileNotFoundError''
      | Some content \<Rightarrow>
          (case re_search default_locale_pattern content of
             Some group1 \<Rightarrow> Inr group1
           | None \<Rightarrow> Inr ''de''))"

text \<open>\<^verbatim>\<open>get_all_namespaces()\<close> looks for \<^verbatim>\<open>de.json\<close>, whatever the default locale is.\<close>

definition get_all_namespaces :: "world \<Rightarrow> string list \<times> world" where
  "get_all_namespaces w =
     (if messages (fs w) ''de'' = Absent then ([], print De_json_not_found w)
      else ([''messages''], w))"

section \<open>Translator adapter\<close>

text \<open>
  The parameters built in lines 141 to 150: \<^verbatim>\<open>source_lang\<close> is set only when a true value
  was given.
\<close>

definition build_params :: "string \<Rightarrow> string \<Rightarrow> string option \<Rightarrow> params" where
  "build_params txt target_lang source_lang =
     \<lparr>param_text = txt, param_target_lang = target_lang,
      param_preserve_formatting = True, param_tag_handling = ''xml'',
      param_source_lang =
        (case source_lang of
           None \<Rightarrow> None
         | Some l \<Rightarrow> if l \<noteq> [] then Some l else None)\<rparr>"

text \<open>
  \<^verbatim>\<open>translate_text(text, target_lang, source_lang)\<close>: the call is recorded in the world, and
  either handler prints and returns the text it was given.
\<close>

definition translate_text ::
    "(params \<Rightarrow> api_result) \<Rightarrow> string \<Rightarrow> string \<Rightarrow> string option \<Rightarrow> world \<Rightarrow> string \<times> world"
  where
  "translate_text api txt target_lang source_lang w =
     (if strip txt = [] then (txt, w)
      else if startswith txt ''__'' \<and> endswith txt ''__'' then (txt, w)
      else
        let params = build_params txt target_lang source_lang;
            w1 = w\<lparr>api_calls := api_calls w @ [params]\<rparr>
        in case api params of
             Result translated \<Rightarrow> (translated, w1)
           | DeepLException e \<Rightarrow> (txt, print (Translation_error e) w1)
           | OtherException e \<Rightarrow> (txt, print (Unexpected_error e) w1))"

section \<open>Orchestrator\<close>

text \<open>
  Lines 222 to 230: the ledger gets the hash of every source key whose stored hash
  differs; a key that had a stored hash counts as changed.
\<close>

fun check_changed ::
    "(string \<Rightarrow> 128 word) \<Rightarrow> (string \<times> string) list \<Rightarrow> dict \<times> nat \<times> world \<Rightarrow> dict \<times> nat \<times> world"
  where
  "check_changed md5 [] st = st"
| "check_changed md5 ((key_path, val) # rest) (hashes, changed_keys, w) =
     (let current_hash = Str (get_hash md5 val);
          stored_hash = map_of hashes key_path
      in if stored_hash \<noteq> Some current_hash
         then check_changed md5 rest
                (dict_set key_path current_hash hashes,
                 (if stored_hash \<noteq> None then changed_keys + 1 else changed_keys),
                 (if stored_hash \<noteq> None then print (Changed_key_detected key_path) w else w))
         else check_changed md5 rest (hashes, changed_keys, w))"

text \<open>
  Lines 249 to 264: the batch of one target locale. A source key whose path has no value
  in the target is missing; any other key is taken as changed when the ledger holds a
  true value for it.
\<close>

datatype reason = Missing | Changed

fun find_missing_or_changed ::
    "(string \<times> string) list \<Rightarrow> dict \<Rightarrow> dict \<Rightarrow> (string \<times> string \<times> reason) list"
  where
  "find_missing_or_changed [] target_data hashes = []"
| "find_missing_or_changed ((key_path, val) # rest) target_data hashes =
     (case get_nested_value target_data key_path of
        None \<Rightarrow> (key_path, val, Missing) # find_missing_or_changed rest target_data hashes
      | Some target_value \<Rightarrow>
          (case map_of hashes key_path of
             None \<Rightarrow> find_missing_or_changed rest target_data hashes
           | Some current_hash \<Rightarrow>
               if truthy current_hash
               then (key_path, val, Changed) # find_missing_or_changed rest target_data hashes
               else find_missing_or_changed rest target_data hashes))"

text \<open>Lines 277 to 295: every key of the batch is translated and merged into the target.\<close>

fun translate_keys ::
    "(params \<Rightarrow> api_result) \<Rightarrow> string \<Rightarrow> string \<Rightarrow> (string \<times> string \<times> reason) list \<Rightarrow>
     dict \<times> nat \<times> world \<Rightarrow> dict \<times> nat \<times> world"
  where
  "translate_keys api dl_lang_code source_lang_code [] st = st"
| "translate_keys api dl_lang_code source_lang_code ((full_path, val, why) # rest)
       (target_data, total_translations, w) =
     (case translate_text api val dl_lang_code (Some source_lang_code) w of
        (translated, w1) \<Rightarrow>
          translate_keys api dl_lang_code source_lang_code rest
            (set_nested target_data full_path translated, total_translations + 1, w1))"

text \<open>
  Lines 242 to 246: the target catalog as the \<^verbatim>\<open>try\<close> block loads it. A file that cannot be
  opened or parsed counts as \<^verbatim>\<open>{}\<close>.
\<close>

definition load_target :: "files \<Rightarrow> string \<Rightarrow> json_doc" where
  "load_target f target_locale =
     (case messages f target_locale of
        Doc doc \<Rightarrow> doc
      | _ \<Rightarrow> Object [])"

text \<open>
  Lines 232 to 302: the loop over the target locales; \<open>Inl\<close> is an exception nobody
  catches. The target file is written only when the batch is not empty.

  A target file whose document is no object is kept as \<^verbatim>\<open>json.load\<close> returned it (line
  244). \<^verbatim>\<open>get_nested_value\<close> gives \<^verbatim>\<open>None\<close> for every path then (line 89), so the batch is
  every source key, each one missing. When there is a source key, the first one is
  translated (line 278), and the merge raises \<^verbatim>\<open>TypeError\<close>: at the membership test or the
  assignment of lines 284 to 287 when the path has several parts, at the assignment of
  line 291 when it has one.
\<close>

fun translate_locales ::
    "(params \<Rightarrow> api_result) \<Rightarrow> string \<Rightarrow> (string \<times> string) list \<Rightarrow> dict \<Rightarrow> string list \<Rightarrow>
     nat \<times> world \<Rightarrow> (string + nat) \<times> world"
  where
  "translate_locales api source_lang_code src_keys hashes [] (total_translations, w) =
     (Inr total_translations, w)"
| "translate_locales api source_lang_code src_keys hashes (target_locale # rest)
       (total_translations, w) =
     (case map_of DEEPL_LANG_CODES target_locale of
        None \<Rightarrow>
          translate_locales api source_lang_code src_keys hashes rest
            (total_translations, print (Skip_not_supported target_locale) w)
      | Some dl_lang_code \<Rightarrow>
          if dl_lang_code = []
          then translate_locales api source_lang_code src_keys hashes rest
                 (total_translations, print (Skip_not_supported target_locale) w)
          else
            (case load_target (fs w) target_locale of
               NonObject kind \<Rightarrow>
                 (case src_keys of
                    [] \<Rightarrow>
                      translate_locales api source_lang_code src_keys hashes rest
                        (total_translations, w)
                  | (key_path, val) # later_keys \<Rightarrow>
                      (case translate_text api val dl_lang_code (Some source_lang_code) w of
                         (translated, w1) \<Rightarrow> (Inl ''TypeError'', w1)))
             | Object target_data \<Rightarrow>
                 let missing_or_changed = find_missing_or_changed src_keys target_data hashes
                 in if missing_or_changed = []
                    then translate_locales api source_lang_code src_keys hashes rest
                           (total_translations, w)
                    else
                      (case translate_keys api dl_lang_code source_lang_code missing_or_changed
                              (target_data, total_translations, w) of
                         (target_data1, total1, w1) \<Rightarrow>
                           translate_locales api source_lang_code src_keys hashes rest
                             (total1,
                              w1\<lparr>fs := (fs w1)\<lparr>messages :=
                                    (messages (fs w1))
                                      (target_locale := Doc (Object target_data1))\<rparr>,
                                 opened_for_writing :=
                                   opened_for_writing w1 @ [locale_file target_locale]\<rparr>))))"

text \<open>
  \<^verbatim>\<open>main()\<close>. The loop over the namespaces runs once, since \<^verbatim>\<open>get_all_namespaces\<close> gives
  one namespace or none. \<^verbatim>\<open>json.load\<close> of the source catalog is not guarded: a source
  file it rejects ends the run with the exception. A source document that is no object
  ends it too: \<^verbatim>\<open>len\<close> (line 216) raises \<^verbatim>\<open>TypeError\<close> for a number, a boolean and \<^verbatim>\<open>None\<close>,
  and \<^verbatim>\<open>data.items()\<close> (line 166) raises \<^verbatim>\<open>AttributeError\<close> for a list and a string. A
  ledger that is no object has no \<^verbatim>\<open>get\<close>: the first source key raises \<^verbatim>\<open>AttributeError\<close>
  at line 224; with no source key the ledger is never consulted, and it is saved as it
  was loaded.
\<close>

definition main :: "env \<Rightarrow> world \<Rightarrow> outcome \<times> world" where
  "main e w0 =
     (case get_locales_from_routing w0 of
        (None, w1) \<Rightarrow> (SysExit 1, w1)
      | (Some all_locales, w1) \<Rightarrow>
     (case get_default_locale (fs w1) of
        Inl exn \<Rightarrow> (Uncaught exn, w1)
      | Inr default_locale \<Rightarrow>
          let source_lang_code = upper default_locale;
              target_locales = filter (\<lambda>loc. loc \<noteq> default_locale) all_locales
          in if target_locales = [] then (Returned, print No_target_locales w1)
             else
     (case get_all_namespaces w1 of
        ([], w2) \<Rightarrow> (Returned, print No_namespaces_found w2)
      | (ns # others, w2) \<Rightarrow>
          let hashes = load_hashes (fs w2)
          in (case messages (fs w2) default_locale of
                Absent \<Rightarrow> (Returned, save_hashes hashes (print Skipping_source_not_found w2))
              | Malformed \<Rightarrow> (Uncaught ''JSONDecodeError'', w2)
              | Doc (NonObject kind) \<Rightarrow>
                  (Uncaught (if kind = Json_array \<or> kind = Json_string
                             then ''AttributeError'' else ''TypeError''), w2)
              | Doc (Object src_data) \<Rightarrow>
                  let src_keys = collect_all_keys src_data []
                  in (case hashes of
                        NonObject kind \<Rightarrow>
                          if src_keys \<noteq> [] then (Uncaught ''AttributeError'', w2)
                          else
                            (case translate_locales (deepl_translate e) source_lang_code
                                    src_keys [] target_locales (0, w2) of
                               (Inl exn, w4) \<Rightarrow> (Uncaught exn, w4)
                             | (Inr total_translations, w4) \<Rightarrow>
                                 (Returned, save_hashes hashes w4))
                      | Object ledger \<Rightarrow>
                          (case check_changed (md5_digest e) src_keys (ledger, 0, w2) of
                             (hashes1, changed_keys, w3) \<Rightarrow>
                               (case translate_locales (deepl_translate e) source_lang_code
                                       src_keys hashes1 target_locales (0, w3) of
                                  (Inl exn, w4) \<Rightarrow> (Uncaught exn, w4)
                                | (Inr total_translations, w4) \<Rightarrow>
                                    (Returned, save_hashes (Object hashes1) w4))))))))"

text \<open>
  The script from its first line: the import of \<^verbatim>\<open>deepl\<close> and the check of the
  environment variable come before \<^verbatim>\<open>main()\<close>, and each ends the process with
  \<^verbatim>\<open>sys.exit(1)\<close>.
\<close>

definition start :: "env \<Rightarrow> world" where
  "start e = \<lparr>fs = initial_files e, api_calls = [], stdout = [], opened_for_writing = []\<rparr>"

definition run :: "env \<Rightarrow> outcome \<times> world" where
  "run e =
     (if \<not> deepl_module e then (SysExit 1, print Deepl_module_not_found (start e))
      else (case environ_DEEPL_API_KEY e of
              None \<Rightarrow> (SysExit 1, print Api_key_not_set (start e))
            | Some key \<Rightarrow>
                if key = [] then (SysExit 1, print Api_key_not_set (start e))
                else main e (start e)))"

section \<open>Flattening and merging back\<close>

text \<open>
  The merge of lines 281 to 291 applied to every pair of a flat mapping, in its order,
  with the value itself in the place of the translation.
\<close>

definition merge_all :: "(string \<times> string) list \<Rightarrow> dict \<Rightarrow> dict" where
  "merge_all pairs target_data =
     fold (\<lambda>(full_path, val) target. set_nested target full_path val) pairs target_data"

text \<open>
  The trees the round trip is proved for. An association list stands for a Python dict
  when its keys are distinct; \<open>plain_items\<close> asks in addition that no key holds a dot
  and that every object below is a dict with at least one item.
\<close>

fun plain :: "json \<Rightarrow> bool" and plain_items :: "dict \<Rightarrow> bool" where
  "plain (Str s) = True"
| "plain (Obj d) = (d \<noteq> [] \<and> distinct (map fst d) \<and> plain_items d)"
| "plain_items [] = True"
| "plain_items ((k, v) # rest) = (CHR ''.'' \<notin> set k \<and> plain v \<and> plain_items rest)"

text \<open>
  For the proofs: the leaves of a tree in order, each with the list of keys that leads to
  it; the dotted paths \<open>collect_all_keys\<close> builds from those lists; and the merge step on
  a list of parts.
\<close>

fun flat :: "dict \<Rightarrow> (string list \<times> string) list" where
  "flat [] = []"
| "flat ((k, Str s) # rest) = ([k], s) # flat rest"
| "flat ((k, Obj d) # rest) = map (\<lambda>(ks, v). (k # ks, v)) (flat d) @ flat rest"

definition paths :: "string \<Rightarrow> dict \<Rightarrow> (string \<times> string) list" where
  "paths pfx d = map (\<lambda>(ks, v). (foldl current_path pfx ks, v)) (flat d)"

definition set_parts :: "string list \<times> string \<Rightarrow> dict \<Rightarrow> dict" where
  "set_parts = (\<lambda>(ks, v) t. set_path t (butlast ks) (last ks) v)"

section \<open>Example inputs\<close>

text \<open>
  A second run over unchanged sources: two locales, German the default; the source
  catalog has one key, the English catalog has it too, and the ledger holds the hash of
  the source value. The translation service answers every request. The digest function
  stays a parameter.
\<close>

definition example_routing :: string where
  "example_routing =
     ''export const routing = defineRouting({ locales: ['de', 'en'], defaultLocale: 'de' });''"

definition rerun_env :: "(string \<Rightarrow> 128 word) \<Rightarrow> env" where
  "rerun_env md5 =
     \<lparr>deepl_module = True,
      environ_DEEPL_API_KEY = Some ''secret:fx'',
      md5_digest = md5,
      deepl_translate = (\<lambda>p. Result ''Hello''),
      initial_files =
        \<lparr>routing_ts = Some example_routing,
         messages = (\<lambda>locale.
            if locale = ''de'' then Doc (Object [(''greeting'', Str ''Hallo'')])
            else if locale = ''en'' then Doc (Object [(''greeting'', Str ''Hello'')])
            else Absent),
         translation_hashes = Doc (Object [(''greeting'', Str (get_hash md5 ''Hallo''))])\<rparr>\<rparr>"

text \<open>The same run with a fixed digest function, where a closed term is needed.\<close>

definition example_env :: env where
  "example_env = rerun_env (\<lambda>txt. 0)"

text \<open>
  Variations of that run: the translation service fails on every request; the \<^verbatim>\<open>deepl\<close>
  module is not installed; the source catalog is a file \<^verbatim>\<open>json.load\<close> rejects; the routing
  file declares the locales but no default locale; the routing file declares nothing.
\<close>

definition failing_api_env :: env where
  "failing_api_env = example_env\<lparr>deepl_translate := (\<lambda>p. DeepLException ''quota exceeded'')\<rparr>"



definition no_default_routing :: string where
  "no_default_routing = ''export const routing = defineRouting({ locales: ['de', 'en'] });''"

definition no_default_env :: env where
  "no_default_env =
     example_env\<lparr>initial_files :=
       (initial_files example_env)\<lparr>routing_ts := Some no_default_routing\<rparr>\<rparr>"

definition no_locales_routing :: string where
  "no_locales_routing = ''export default {};''"

definition no_locales_env :: env where
  "no_locales_env =
     example_env\<lparr>initial_files :=
       (initial_files example_env)\<lparr>routing_ts := Some no_locales_routing\<rparr>\<rparr>"



section \<open>Facts about dicts and strings\<close>

lemma map_of_dict_set: "map_of (dict_set k v d) = (map_of d)(k \<mapsto> v)"
  by (induction d) (auto simp: fun_eq_iff)

lemma split_dot_not_Nil: "split_dot s \<noteq> []"
  by (induction s) (auto split: list.splits)

lemma strip_empty_iff: "strip s = [] \<longleftrightarrow> list_all is_space s"
proof -
  have "dropWhile is_space s = [] \<longleftrightarrow> (\<forall>c\<in>set (dropWhile is_space s). is_space c)"
  proof (cases "dropWhile is_space s")
    case Nil
    show ?thesis unfolding Nil by simp
  next
    case (Cons c cs)
    then have "\<not> is_space c"
      using hd_dropWhile [of is_space s] by fastforce
    with Cons show ?thesis by auto
  qed
  moreover have "dropWhile is_space s = [] \<longleftrightarrow> (\<forall>c\<in>set s. is_space c)"
    by (simp add: dropWhile_eq_Nil_conv)
  ultimately show ?thesis
    by (simp add: strip_def dropWhile_eq_Nil_conv list_all_iff)
qed

section \<open>The translator adapter skips blank and placeholder texts\<close>

text \<open>
  C4: a text that is empty or all whitespace, and a text that starts and ends with the
  double underscore, comes back from \<open>translate_text\<close> as it went in, for every target
  and source language and whatever the translation service would do; the world is the
  same afterwards, so no call was made and nothing was printed.
\<close>

theorem translate_text_skips:
  "list_all is_space txt \<or> (startswith txt ''__'' \<and> endswith txt ''__'') \<Longrightarrow>
   translate_text api txt target_lang source_lang w = (txt, w)"
  by (auto simp: translate_text_def strip_empty_iff)

theorem translate_text_skips_witness:
  "(list_all is_space ''__count__'' \<or>
      (startswith ''__count__'' ''__'' \<and> endswith ''__count__'' ''__'')) \<and>
   translate_text (\<lambda>p. Result ''never'') ''__count__'' ''EN-US'' (Some ''DE'')
       (start example_env) =
     (''__count__'', start example_env)"
  using translate_text_skips
    [of "''__count__''" "\<lambda>p. Result ''never''" "''EN-US''" "Some ''DE''" "start example_env"]
  by (simp add: startswith_def endswith_def)

section \<open>The batch of a target locale\<close>

text \<open>
  C6: a key path of the flattened source catalog whose lookup in the target catalog
  gives no value is in the batch computed for that target, marked as missing.
\<close>

theorem missing_key_in_batch:
  "(key_path, val) \<in> set src_keys \<Longrightarrow> get_nested_value target_data key_path = None \<Longrightarrow>
   (key_path, val, Missing) \<in> set (find_missing_or_changed src_keys target_data hashes)"
  by (induction src_keys) (auto split: option.splits)

theorem missing_key_in_batch_witness:
  "(''a.b'', ''Hallo'') \<in> set (collect_all_keys [(''a'', Obj [(''b'', Str ''Hallo'')])] []) \<and>
   get_nested_value [(''a'', Obj [(''c'', Str ''Bye'')])] ''a.b'' = None \<and>
   (''a.b'', ''Hallo'', Missing) \<in>
     set (find_missing_or_changed (collect_all_keys [(''a'', Obj [(''b'', Str ''Hallo'')])] [])
            [(''a'', Obj [(''c'', Str ''Bye'')])] [])"
proof -
  have src: "(''a.b'', ''Hallo'') \<in> set (collect_all_keys [(''a'', Obj [(''b'', Str ''Hallo'')])] [])"
    by (simp add: current_path_def)
  have absent: "get_nested_value [(''a'', Obj [(''c'', Str ''Bye'')])] ''a.b'' = None"
    by (simp add: get_nested_value_def)
  from src absent missing_key_in_batch [OF src absent] show ?thesis by blast
qed



section \<open>The translator adapter when the service fails\<close>


section \<open>What the loops leave alone\<close>

lemma dict_set_keys: "fst ` set (dict_set k v d) = insert k (fst ` set d)"
  by (simp add: dom_map_of_conv_image_fst [symmetric] map_of_dict_set)

lemma translate_text_world:
  "translate_text api txt tlang slang w = (r, w1) \<Longrightarrow>
   fs w1 = fs w \<and> opened_for_writing w1 = opened_for_writing w"
  by (auto simp: translate_text_def Let_def print_def split: api_result.splits if_splits)

lemma check_changed_world:
  "check_changed md5 src (h, c, w) = (h1, c1, w1) \<Longrightarrow>
   fs w1 = fs w \<and> api_calls w1 = api_calls w \<and> opened_for_writing w1 = opened_for_writing w"
  by (induction src arbitrary: h c w) (auto simp: Let_def print_def split: if_splits)

lemma check_changed_keys:
  "check_changed md5 src (h, c, w) = (h1, c1, w1) \<Longrightarrow> fst ` set h \<subseteq> fst ` set h1"
proof (induction src arbitrary: h c w)
  case Nil then show ?case by simp
next
  case (Cons a src)
  obtain k v where a: "a = (k, v)" by (cases a)
  show ?case
  proof (cases "map_of h k \<noteq> Some (Str (get_hash md5 v))")
    case True
    with Cons.prems a have "fst ` set (dict_set k (Str (get_hash md5 v)) h) \<subseteq> fst ` set h1"
      using Cons.IH by (simp add: Let_def)
    then show ?thesis by (auto simp: dict_set_keys)
  next
    case False
    with Cons.prems a show ?thesis using Cons.IH by (simp add: Let_def)
  qed
qed

lemma translate_keys_world:
  "translate_keys api dl src batch (t, n, w) = (t1, n1, w1) \<Longrightarrow>
   fs w1 = fs w \<and> opened_for_writing w1 = opened_for_writing w"
proof (induction batch arbitrary: t n w)
  case Nil then show ?case by simp
next
  case (Cons a batch)
  obtain p v why where a: "a = (p, v, why)" by (cases a)
  obtain r w' where tt: "translate_text api v dl (Some src) w = (r, w')" by fastforce
  with Cons.prems a have "translate_keys api dl src batch (set_nested t p r, n + 1, w') = (t1, n1, w1)"
    by simp
  from Cons.IH [OF this] translate_text_world [OF tt] show ?case by simp
qed

text \<open>One round of the loop over the target locales does one of five things.\<close>

lemma translate_locales_step [consumes 0, case_names skip no_keys crash complete written]:
  obtains
    (skip) "map_of DEEPL_LANG_CODES loc = None \<or> map_of DEEPL_LANG_CODES loc = Some []"
      "translate_locales api src keys h (loc # locs) (n, w) =
         translate_locales api src keys h locs (n, print (Skip_not_supported loc) w)"
  | (no_keys) code kind where "map_of DEEPL_LANG_CODES loc = Some code" "code \<noteq> []"
      "load_target (fs w) loc = NonObject kind" "keys = []"
      "translate_locales api src keys h (loc # locs) (n, w) =
         translate_locales api src keys h locs (n, w)"
  | (crash) code kind k v later r w1 where "map_of DEEPL_LANG_CODES loc = Some code" "code \<noteq> []"
      "load_target (fs w) loc = NonObject kind" "keys = (k, v) # later"
      "translate_text api v code (Some src) w = (r, w1)"
      "translate_locales api src keys h (loc # locs) (n, w) = (Inl ''TypeError'', w1)"
  | (complete) code t where "map_of DEEPL_LANG_CODES loc = Some code" "code \<noteq> []"
      "load_target (fs w) loc = Object t" "find_missing_or_changed keys t h = []"
      "translate_locales api src keys h (loc # locs) (n, w) =
         translate_locales api src keys h locs (n, w)"
  | (written) code t t1 n1 w1 where "map_of DEEPL_LANG_CODES loc = Some code" "code \<noteq> []"
      "load_target (fs w) loc = Object t" "find_missing_or_changed keys t h \<noteq> []"
      "translate_keys api code src (find_missing_or_changed keys t h) (t, n, w) = (t1, n1, w1)"
      "translate_locales api src keys h (loc # locs) (n, w) =
         translate_locales api src keys h locs
           (n1, w1\<lparr>fs := (fs w1)\<lparr>messages := (messages (fs w1))(loc := Doc (Object t1))\<rparr>,
                   opened_for_writing := opened_for_writing w1 @ [locale_file loc]\<rparr>)"
proof (cases "map_of DEEPL_LANG_CODES loc")
  case None
  then show ?thesis by (intro skip) simp_all
next
  case (Some code)
  show ?thesis
  proof (cases "code = []")
    case True
    with Some show ?thesis by (intro skip) simp_all
  next
    case False
    show ?thesis
    proof (cases "load_target (fs w) loc")
      case (NonObject kind)
      show ?thesis
      proof (cases keys)
        case Nil
        with Some False NonObject show ?thesis by (intro no_keys [of code kind]) simp_all
      next
        case (Cons a later)
        obtain k v where a: "a = (k, v)" by (cases a)
        obtain r w1 where tt: "translate_text api v code (Some src) w = (r, w1)" by fastforce
        from Some False NonObject Cons a tt show ?thesis
          by (intro crash [of code kind k v later r w1]) simp_all
      qed
    next
      case (Object t)
      show ?thesis
      proof (cases "find_missing_or_changed keys t h = []")
        case True
        with Some False Object show ?thesis by (intro complete [of code t]) simp_all
      next
        case nonempty: False
        obtain t1 n1 w1 where tk:
          "translate_keys api code src (find_missing_or_changed keys t h) (t, n, w) = (t1, n1, w1)"
          by (metis prod_cases3)
        from Some False Object nonempty tk show ?thesis
          by (intro written [of code t t1 n1 w1]) simp_all
      qed
    qed
  qed
qed

lemma translate_locales_world:
  "translate_locales api src keys h locs (n, w) = (r, w1) \<Longrightarrow>
   translation_hashes (fs w1) = translation_hashes (fs w) \<and>
   routing_ts (fs w1) = routing_ts (fs w) \<and>
   (\<forall>l. l \<notin> set locs \<longrightarrow> messages (fs w1) l = messages (fs w) l) \<and>
   set (opened_for_writing w1) \<subseteq> set (opened_for_writing w) \<union> locale_file ` set locs"
proof (induction locs arbitrary: n w)
  case Nil
  then show ?case by simp
next
  case (Cons loc locs)
  show ?case
  proof (cases rule: translate_locales_step [of loc api src keys h locs n w])
    case skip
    with Cons.prems Cons.IH [of n "print (Skip_not_supported loc) w"] show ?thesis
      by (auto simp: print_def)
  next
    case (no_keys code kind)
    with Cons.prems Cons.IH [of n w] show ?thesis by auto
  next
    case (crash code kind k v later r' w')
    with Cons.prems translate_text_world [OF crash(5)] show ?thesis by auto
  next
    case (complete code t)
    with Cons.prems Cons.IH [of n w] show ?thesis by auto
  next
    case (written code t t1 n1 w')
    let ?w = "w'\<lparr>fs := (fs w')\<lparr>messages := (messages (fs w'))(loc := Doc (Object t1))\<rparr>,
                 opened_for_writing := opened_for_writing w' @ [locale_file loc]\<rparr>"
    from written(6) Cons.prems have "translate_locales api src keys h locs (n1, ?w) = (r, w1)"
      by simp
    from Cons.IH [OF this] translate_keys_world [OF written(5)] show ?thesis by auto
  qed
qed

text \<open>
  The loop raises only on a target document that is no object: when no target locale
  has one, it comes to its end, and no file has one afterwards either.
\<close>

lemma translate_locales_completes:
  "\<forall>l kind. messages (fs w) l \<noteq> Doc (NonObject kind) \<Longrightarrow>
   \<exists>n1 w1. translate_locales api src keys h locs (n, w) = (Inr n1, w1) \<and>
     (\<forall>l kind. messages (fs w1) l \<noteq> Doc (NonObject kind))"
proof (induction locs arbitrary: n w)
  case Nil
  then show ?case by simp
next
  case (Cons loc locs)
  have target: "\<And>kind. load_target (fs w) loc \<noteq> NonObject kind"
    using Cons.prems by (cases "messages (fs w) loc") (auto simp: load_target_def)
  show ?case
  proof (cases rule: translate_locales_step [of loc api src keys h locs n w])
    case skip
    with Cons.IH [of "print (Skip_not_supported loc) w" n] Cons.prems show ?thesis
      by (simp add: print_def)
  next
    case (no_keys code kind)
    with target [of kind] show ?thesis by blast
  next
    case (crash code kind k v later r' w')
    with target [of kind] show ?thesis by blast
  next
    case (complete code t)
    with Cons.IH [of w n] Cons.prems show ?thesis by simp
  next
    case (written code t t1 n1 w')
    let ?w = "w'\<lparr>fs := (fs w')\<lparr>messages := (messages (fs w'))(loc := Doc (Object t1))\<rparr>,
                 opened_for_writing := opened_for_writing w' @ [locale_file loc]\<rparr>"
    from translate_keys_world [OF written(5)] Cons.prems
    have "\<forall>l kind. messages (fs ?w) l \<noteq> Doc (NonObject kind)" by simp
    from Cons.IH [OF this, of n1] written(6) show ?thesis by simp
  qed
qed

lemma translate_locales_no_keys:
  "\<exists>w1. translate_locales api src [] h locs (n, w) = (Inr n, w1) \<and> fs w1 = fs w \<and>
     opened_for_writing w1 = opened_for_writing w \<and> api_calls w1 = api_calls w"
proof (induction locs arbitrary: w)
  case Nil
  show ?case by simp
next
  case (Cons loc locs)
  show ?case
  proof (cases rule: translate_locales_step [of loc api src "[]" h locs n w])
    case skip
    with Cons [of "print (Skip_not_supported loc) w"] show ?thesis by (simp add: print_def)
  next
    case (no_keys code kind)
    with Cons [of w] show ?thesis by simp
  next
    case (complete code t)
    with Cons [of w] show ?thesis by simp
  qed simp_all
qed

section \<open>The ways a run can go\<close>

lemma main_cases [consumes 0, case_names no_routing no_locales no_targets no_namespaces
    no_source bad_source odd_source odd_ledger odd_ledger_no_keys crashed full]:
  obtains
    (no_routing) "routing_ts (fs w0) = None"
      "main e w0 = (SysExit 1, print Routing_file_not_found w0)"
  | (no_locales) content where "routing_ts (fs w0) = Some content"
      "re_search locales_pattern content = None"
      "main e w0 = (SysExit 1, print Locales_array_not_found w0)"
  | (no_targets) content ls d where "routing_ts (fs w0) = Some content"
      "re_search locales_pattern content = Some ls"
      "get_default_locale (fs w0) = Inr d"
      "main e w0 = (Returned, print No_target_locales w0)"
      "filter (\<lambda>loc. loc \<noteq> d) (findall_codes ls) = []"
  | (no_namespaces) content ls d where "routing_ts (fs w0) = Some content"
      "re_search locales_pattern content = Some ls"
      "get_default_locale (fs w0) = Inr d"
      "main e w0 = (Returned, print No_namespaces_found (print De_json_not_found w0))"
      "messages (fs w0) ''de'' = Absent"
  | (no_source) content ls d where "routing_ts (fs w0) = Some content"
      "re_search locales_pattern content = Some ls"
      "get_default_locale (fs w0) = Inr d"
      "main e w0 = (Returned, save_hashes (load_hashes (fs w0)) (print Skipping_source_not_found w0))"
      "messages (fs w0) d = Absent"
  | (bad_source) content ls d where "routing_ts (fs w0) = Some content"
      "re_search locales_pattern content = Some ls"
      "get_default_locale (fs w0) = Inr d"
      "messages (fs w0) d = Malformed"
      "main e w0 = (Uncaught ''JSONDecodeError'', w0)"
  | (odd_source) content ls d kind exn where "routing_ts (fs w0) = Some content"
      "re_search locales_pattern content = Some ls"
      "get_default_locale (fs w0) = Inr d"
      "messages (fs w0) d = Doc (NonObject kind)"
      "main e w0 = (Uncaught exn, w0)"
  | (odd_ledger) content ls d src_data kind where "routing_ts (fs w0) = Some content"
      "re_search locales_pattern content = Some ls"
      "get_default_locale (fs w0) = Inr d"
      "messages (fs w0) d = Doc (Object src_data)"
      "load_hashes (fs w0) = NonObject kind"
      "main e w0 = (Uncaught ''AttributeError'', w0)"
  | (odd_ledger_no_keys) content ls d src_data kind w4 where
      "routing_ts (fs w0) = Some content"
      "re_search locales_pattern content = Some ls"
      "get_default_locale (fs w0) = Inr d"
      "messages (fs w0) d = Doc (Object src_data)"
      "load_hashes (fs w0) = NonObject kind"
      "fs w4 = fs w0" "opened_for_writing w4 = opened_for_writing w0"
      "main e w0 = (Returned, save_hashes (NonObject kind) w4)"
  | (crashed) content ls d src_data ledger hashes1 changed_keys w3 exn w4 where
      "routing_ts (fs w0) = Some content"
      "re_search locales_pattern content = Some ls"
      "get_default_locale (fs w0) = Inr d"
      "messages (fs w0) d = Doc (Object src_data)"
      "load_hashes (fs w0) = Object ledger"
      "check_changed (md5_digest e) (collect_all_keys src_data []) (ledger, 0, w0) =
         (hashes1, changed_keys, w3)"
      "translate_locales (deepl_translate e) (upper d) (collect_all_keys src_data []) hashes1
         (filter (\<lambda>loc. loc \<noteq> d) (findall_codes ls)) (0, w3) = (Inl exn, w4)"
      "main e w0 = (Uncaught exn, w4)"
  | (full) content ls d src_data ledger hashes1 changed_keys w3 total w4 where
      "routing_ts (fs w0) = Some content"
      "re_search locales_pattern content = Some ls"
      "get_default_locale (fs w0) = Inr d"
      "messages (fs w0) d = Doc (Object src_data)"
      "load_hashes (fs w0) = Object ledger"
      "check_changed (md5_digest e) (collect_all_keys src_data []) (ledger, 0, w0) =
         (hashes1, changed_keys, w3)"
      "translate_locales (deepl_translate e) (upper d) (collect_all_keys src_data []) hashes1
         (filter (\<lambda>loc. loc \<noteq> d) (findall_codes ls)) (0, w3) = (Inr total, w4)"
      "main e w0 = (Returned, save_hashes (Object hashes1) w4)"
proof (cases "routing_ts (fs w0)")
  case None
  then show ?thesis
    by (intro no_routing) (simp_all add: main_def get_locales_from_routing_def)
next
  case (Some content)
  note routing = this
  show ?thesis
  proof (cases "re_search locales_pattern content")
    case None
    with routing show ?thesis
      by (intro no_locales [of content]) (simp_all add: main_def get_locales_from_routing_def)
  next
    case (Some ls)
    note located = this
    obtain d where d: "get_default_locale (fs w0) = Inr d"
      using routing
      by (cases "re_search default_locale_pattern content") (simp_all add: get_default_locale_def)
    have loc: "get_locales_from_routing w0 = (Some (findall_codes ls), w0)"
      using routing located by (simp add: get_locales_from_routing_def)
    show ?thesis
    proof (cases "filter (\<lambda>loc. loc \<noteq> d) (findall_codes ls) = []")
      case True
      with loc d have "main e w0 = (Returned, print No_target_locales w0)"
        by (simp add: main_def Let_def)
      with routing located d True show ?thesis by (intro no_targets)
    next
      case targets: False
      show ?thesis
      proof (cases "messages (fs w0) ''de'' = Absent")
        case True
        with loc d targets
        have "main e w0 = (Returned, print No_namespaces_found (print De_json_not_found w0))"
          by (simp add: main_def Let_def get_all_namespaces_def)
        with routing located d True show ?thesis by (intro no_namespaces)
      next
        case de: False
        show ?thesis
        proof (cases "messages (fs w0) d")
          case Absent
          with loc d targets de
          have "main e w0 =
              (Returned, save_hashes (load_hashes (fs w0)) (print Skipping_source_not_found w0))"
            by (simp add: main_def Let_def get_all_namespaces_def)
          with routing located d Absent show ?thesis by (intro no_source)
        next
          case Malformed
          with loc d targets de have "main e w0 = (Uncaught ''JSONDecodeError'', w0)"
            by (simp add: main_def Let_def get_all_namespaces_def)
          with routing located d Malformed show ?thesis by (intro bad_source)
        next
          case (Doc doc)
          show ?thesis
          proof (cases doc)
            case (NonObject kind)
            with Doc loc d targets de obtain exn where "main e w0 = (Uncaught exn, w0)"
              by (simp add: main_def Let_def get_all_namespaces_def)
            with routing located d Doc NonObject show ?thesis by (intro odd_source) simp_all
          next
            case (Object src_data)
            note source = Doc [unfolded Object]
            show ?thesis
            proof (cases "load_hashes (fs w0)")
              case (NonObject kind)
              show ?thesis
              proof (cases "collect_all_keys src_data [] = []")
                case False
                with loc d targets de source NonObject
                have "main e w0 = (Uncaught ''AttributeError'', w0)"
                  by (simp add: main_def Let_def get_all_namespaces_def
                      del: collect_all_keys.simps)
                with routing located d source NonObject show ?thesis by (intro odd_ledger)
              next
                case True
                obtain w4 where tl:
                  "translate_locales (deepl_translate e) (upper d) [] []
                     (filter (\<lambda>loc. loc \<noteq> d) (findall_codes ls)) (0, w0) = (Inr 0, w4)"
                  "fs w4 = fs w0" "opened_for_writing w4 = opened_for_writing w0"
                  using translate_locales_no_keys by blast
                from loc d targets de source NonObject True tl(1)
                have "main e w0 = (Returned, save_hashes (NonObject kind) w4)"
                  by (simp add: main_def Let_def get_all_namespaces_def
                      del: collect_all_keys.simps)
                with routing located d source NonObject tl(2,3) show ?thesis
                  by (intro odd_ledger_no_keys)
              qed
            next
              case (Object ledger)
              obtain hashes1 changed_keys w3 where cc:
                "check_changed (md5_digest e) (collect_all_keys src_data []) (ledger, 0, w0) =
                   (hashes1, changed_keys, w3)"
                by (metis prod_cases3)
              obtain r w4 where tl:
                "translate_locales (deepl_translate e) (upper d) (collect_all_keys src_data [])
                   hashes1 (filter (\<lambda>loc. loc \<noteq> d) (findall_codes ls)) (0, w3) = (r, w4)"
                by fastforce
              show ?thesis
              proof (cases r)
                case (Inl exn)
                from loc d targets de source Object cc tl [unfolded Inl]
                have "main e w0 = (Uncaught exn, w4)"
                  by (simp add: main_def Let_def get_all_namespaces_def
                      del: collect_all_keys.simps)
                with routing located d source Object cc tl [unfolded Inl] show ?thesis
                  by (intro crashed)
              next
                case (Inr total)
                from loc d targets de source Object cc tl [unfolded Inr]
                have "main e w0 = (Returned, save_hashes (Object hashes1) w4)"
                  by (simp add: main_def Let_def get_all_namespaces_def
                      del: collect_all_keys.simps)
                with routing located d source Object cc tl [unfolded Inr] show ?thesis
                  by (intro full)
              qed
            qed
          qed
        qed
      qed
    qed
  qed
qed

lemma run_cases [consumes 0, case_names no_module no_key started]:
  obtains
    (no_module) "\<not> deepl_module e" "run e = (SysExit 1, print Deepl_module_not_found (start e))"
  | (no_key) "deepl_module e" "environ_DEEPL_API_KEY e = None \<or> environ_DEEPL_API_KEY e = Some []"
      "run e = (SysExit 1, print Api_key_not_set (start e))"
  | (started) key where "deepl_module e" "environ_DEEPL_API_KEY e = Some key" "key \<noteq> []"
      "run e = main e (start e)"
  by (cases "environ_DEEPL_API_KEY e") (auto simp: run_def)

section \<open>Ledger and written files\<close>

lemma loaded_ledger_is_doc:
  "load_hashes f = Object ledger \<Longrightarrow> k \<in> fst ` set ledger \<Longrightarrow>
   translation_hashes f = Doc (Object ledger)"
  by (cases "translation_hashes f") (auto simp: load_hashes_def)

lemma main_ledger:
  assumes "load_hashes (fs w0) = Object ledger" "k \<in> fst ` set ledger"
  shows "\<exists>h. translation_hashes (fs (snd (main e w0))) = Doc (Object h) \<and> k \<in> fst ` set h"
proof (cases rule: main_cases [of w0 e])
  case (full content ls d src_data ledger' hashes1 changed_keys w3 total w4)
  from full(5) assms(1) have "ledger' = ledger" by simp
  with check_changed_keys [OF full(6)] assms(2) have "k \<in> fst ` set hashes1" by blast
  with full(8) show ?thesis by (simp add: save_hashes_def)
next
  case (crashed content ls d src_data ledger' hashes1 changed_keys w3 exn w4)
  from translate_locales_world [OF crashed(7)] check_changed_world [OF crashed(6)]
  have "translation_hashes (fs w4) = translation_hashes (fs w0)" by simp
  with crashed(8) loaded_ledger_is_doc [OF assms] assms(2) show ?thesis by auto
next
  case (no_source content ls d)
  with assms show ?thesis by (simp add: save_hashes_def)
next
  case (odd_ledger content ls d src_data kind)
  with assms show ?thesis by simp
next
  case (odd_ledger_no_keys content ls d src_data kind w4)
  with assms show ?thesis by simp
qed (use assms loaded_ledger_is_doc [OF assms] in \<open>auto simp: print_def\<close>)

text \<open>
  C9: every key path of the ledger loaded at the start of a run is a key of the ledger
  file when the run is over, whether the run saved the ledger or ended before.
\<close>

theorem ledger_never_shrinks:
  "load_hashes (initial_files e) = Object ledger \<Longrightarrow> k \<in> fst ` set ledger \<Longrightarrow>
   \<exists>h. translation_hashes (fs (snd (run e))) = Doc (Object h) \<and> k \<in> fst ` set h"
proof (cases rule: run_cases [of e])
  case (started key)
  assume "load_hashes (initial_files e) = Object ledger" "k \<in> fst ` set ledger"
  then have "load_hashes (fs (start e)) = Object ledger" "k \<in> fst ` set ledger"
    by (simp_all add: start_def)
  from main_ledger [OF this, of e] started show ?thesis by simp
qed (use loaded_ledger_is_doc [of "initial_files e" ledger k] in
    \<open>auto simp: print_def start_def\<close>)

lemma re_search_Some: "re_search m s = Some g \<Longrightarrow> \<exists>t. m t = Some g"
  by (induction s) (auto split: option.splits)

lemma quoted_code_length: "quoted_code s = Some g \<Longrightarrow> length g = 2"
  by (induction s rule: quoted_code.induct) (auto split: if_splits)

lemma default_locale_pattern_length: "default_locale_pattern s = Some g \<Longrightarrow> length g = 2"
  by (auto simp: default_locale_pattern_def bind_eq_Some_conv dest: quoted_code_length)

lemma get_default_locale_length: "get_default_locale f = Inr d \<Longrightarrow> length d = 2"
  by (auto simp: get_default_locale_def split: option.splits
      dest!: re_search_Some default_locale_pattern_length)

lemma locale_file_inj: "locale_file a = locale_file b \<longleftrightarrow> a = b"
  by (simp add: locale_file_def)

lemma hashes_file_no_locale_file: "length d = 2 \<Longrightarrow> HASHES_FILE \<noteq> locale_file d"
proof
  assume "length d = 2" and "HASHES_FILE = locale_file d"
  then have "length HASHES_FILE = length (locale_file d)" by simp
  with \<open>length d = 2\<close> show False by (simp add: HASHES_FILE_def locale_file_def LOCALES_DIR_def)
qed

lemma main_writes:
  assumes "p \<in> set (opened_for_writing (snd (main e w0)))" "opened_for_writing w0 = []"
  shows "\<exists>d. get_default_locale (fs w0) = Inr d \<and> p \<noteq> locale_file d \<and>
           (p = HASHES_FILE \<or> (\<exists>loc. loc \<noteq> d \<and> p = locale_file loc))"
proof (cases rule: main_cases [of w0 e])
  case (full content ls d src_data ledger hashes1 changed_keys w3 total w4)
  have len: "length d = 2" using full(3) by (rule get_default_locale_length)
  from check_changed_world [OF full(6)] assms(2) have "opened_for_writing w3 = []" by simp
  with translate_locales_world [OF full(7)]
  have "set (opened_for_writing w4) \<subseteq> locale_file ` {loc. loc \<noteq> d}" by auto
  with assms(1) full(8)
  have "p = HASHES_FILE \<or> (\<exists>loc. loc \<noteq> d \<and> p = locale_file loc)"
    by (auto simp: save_hashes_def)
  with len full(3) show ?thesis
    using hashes_file_no_locale_file [of d] by (auto simp: locale_file_inj)
next
  case (crashed content ls d src_data ledger hashes1 changed_keys w3 exn w4)
  from check_changed_world [OF crashed(6)] assms(2) have "opened_for_writing w3 = []" by simp
  with translate_locales_world [OF crashed(7)]
  have "set (opened_for_writing w4) \<subseteq> locale_file ` {loc. loc \<noteq> d}" by auto
  with assms(1) crashed(8) have "\<exists>loc. loc \<noteq> d \<and> p = locale_file loc" by auto
  with crashed(3) show ?thesis by (auto simp: locale_file_inj)
next
  case (odd_ledger_no_keys content ls d src_data kind w4)
  have len: "length d = 2" using odd_ledger_no_keys(3) by (rule get_default_locale_length)
  from assms odd_ledger_no_keys(7,8) have "p = HASHES_FILE" by (simp add: save_hashes_def)
  with len odd_ledger_no_keys(3) show ?thesis using hashes_file_no_locale_file [of d] by auto
next
  case (no_source content ls d)
  have len: "length d = 2" using no_source(3) by (rule get_default_locale_length)
  from assms no_source(4) have "p = HASHES_FILE" by (simp add: save_hashes_def print_def)
  with len no_source(3) show ?thesis using hashes_file_no_locale_file [of d] by auto
qed (use assms in \<open>simp_all add: print_def\<close>)

text \<open>
  C10: a path the run opens for writing is the hash ledger or the catalog of a locale
  other than the default locale; it is never the catalog of the default locale.
\<close>

theorem source_catalog_never_written:
  "p \<in> set (opened_for_writing (snd (run e))) \<Longrightarrow>
   \<exists>d. get_default_locale (initial_files e) = Inr d \<and> p \<noteq> locale_file d \<and>
       (p = HASHES_FILE \<or> (\<exists>loc. loc \<noteq> d \<and> p = locale_file loc))"
proof (cases rule: run_cases [of e])
  case (started key)
  assume "p \<in> set (opened_for_writing (snd (run e)))"
  with started have "p \<in> set (opened_for_writing (snd (main e (start e))))" by simp
  from main_writes [OF this] show ?thesis by (simp add: start_def)
qed (simp_all add: print_def start_def)

section \<open>The example runs\<close>

lemma example_locales:
  "map_option findall_codes (re_search locales_pattern example_routing) = Some [''de'', ''en'']"
  by code_simp

lemma example_default: "re_search default_locale_pattern example_routing = Some ''de''"
  by code_simp

lemma get_hash_length: "length (get_hash md5 s) = 8"
  by (simp add: get_hash_def hexdigest_def)

lemma upper_de: "upper ''de'' = ''DE''"
  by code_simp

lemma example_get_locales:
  "routing_ts (fs w) = Some example_routing \<Longrightarrow>
   get_locales_from_routing w = (Some [''de'', ''en''], w)"
  using example_locales by (auto simp: get_locales_from_routing_def split: option.splits)

lemma example_get_default:
  "routing_ts f = Some example_routing \<Longrightarrow> get_default_locale f = Inr ''de''"
  by (simp add: get_default_locale_def example_default)

lemma get_hash_not_empty: "get_hash md5 s \<noteq> []"
  using get_hash_length [of md5 s] by auto

lemma strip_Hallo: "strip ''Hallo'' = ''Hallo''"
  by code_simp

lemma en_code: "map_of DEEPL_LANG_CODES ''en'' = Some ''EN-US''"
  by (simp add: DEEPL_LANG_CODES_def)

lemma rerun_result:
  "run (rerun_env md5) =
     (Returned,
      \<lparr>fs = (initial_files (rerun_env md5))\<lparr>messages :=
               (messages (initial_files (rerun_env md5)))
                 (''en'' := Doc (Object [(''greeting'', Str ''Hello'')]))\<rparr>,
       api_calls = [build_params ''Hallo'' ''EN-US'' (Some ''DE'')],
       stdout = [],
       opened_for_writing = [locale_file ''en'', HASHES_FILE]\<rparr>)"
  by (simp add: run_def main_def rerun_env_def start_def example_get_locales example_get_default
      get_all_namespaces_def load_hashes_def load_target_def current_path_def
      get_nested_value_def get_hash_not_empty upper_de en_code translate_text_def strip_Hallo
      startswith_def endswith_def save_hashes_def set_nested_def Let_def)

text \<open>
  The run whose translation service fails on every request: it returns, the English
  catalog holds the German source string, one error line is printed.
\<close>

lemma failing_api_run:
  "fst (run failing_api_env) = Returned \<and>
   messages (fs (snd (run failing_api_env))) ''en'' =
     Doc (Object [(''greeting'', Str ''Hallo'')]) \<and>
   stdout (snd (run failing_api_env)) = [Translation_error ''quota exceeded''] \<and>
   api_calls (snd (run failing_api_env)) = [build_params ''Hallo'' ''EN-US'' (Some ''DE'')]"
  by (simp add: failing_api_env_def example_env_def run_def main_def rerun_env_def start_def
      example_get_locales example_get_default get_all_namespaces_def load_hashes_def
      load_target_def current_path_def get_nested_value_def get_hash_not_empty upper_de en_code
      translate_text_def strip_Hallo startswith_def endswith_def save_hashes_def set_nested_def
      print_def Let_def)


text \<open>
  C1, at a concrete rerun: the ledger holds the hash of the unchanged source value and the
  target catalog has the key, no change is reported, and still the run sends the value
  to the translation API.
\<close>

theorem unchanged_key_is_translated_again:
  "load_hashes (initial_files (rerun_env md5)) =
     Object [(''greeting'', Str (get_hash md5 ''Hallo''))] \<and>
   load_target (initial_files (rerun_env md5)) ''en'' = Object [(''greeting'', Str ''Hello'')] \<and>
   get_nested_value [(''greeting'', Str ''Hello'')] ''greeting'' = Some (Str ''Hello'') \<and>
   api_calls (snd (run (rerun_env md5))) = [build_params ''Hallo'' ''EN-US'' (Some ''DE'')] \<and>
   stdout (snd (run (rerun_env md5))) = []"
  by (simp add: rerun_result)
     (simp add: rerun_env_def load_hashes_def load_target_def get_nested_value_def)

theorem ledger_never_shrinks_witness:
  "load_hashes (initial_files example_env) = Object [(''greeting'', Str (get_hash (\<lambda>s. 0) ''Hallo''))] \<and>
   ''greeting'' \<in> fst ` set [(''greeting'', Str (get_hash (\<lambda>s. 0) ''Hallo''))] \<and>
   (\<exists>h. translation_hashes (fs (snd (run example_env))) = Doc (Object h) \<and>
        ''greeting'' \<in> fst ` set h)"
proof -
  have loaded: "load_hashes (initial_files example_env) =
      Object [(''greeting'', Str (get_hash (\<lambda>s. 0) ''Hallo''))]"
    by (simp add: example_env_def rerun_env_def load_hashes_def)
  have key: "''greeting'' \<in> fst ` set [(''greeting'', Str (get_hash (\<lambda>s. 0) ''Hallo''))]"
    by simp
  from loaded key ledger_never_shrinks [OF loaded key] show ?thesis by blast
qed

theorem source_catalog_never_written_witness:
  "locale_file ''en'' \<in> set (opened_for_writing (snd (run example_env))) \<and>
   (\<exists>d. get_default_locale (initial_files example_env) = Inr d \<and> locale_file ''en'' \<noteq> locale_file d \<and>
       (locale_file ''en'' = HASHES_FILE \<or> (\<exists>loc. loc \<noteq> d \<and> locale_file ''en'' = locale_file loc)))"
proof -
  have "locale_file ''en'' \<in> set (opened_for_writing (snd (run example_env)))"
    by (simp add: example_env_def rerun_result)
  from this source_catalog_never_written [OF this] show ?thesis by blast
qed

section \<open>Exit codes\<close>

lemma config_missing_exits:
  assumes "\<not> deepl_module e \<or> environ_DEEPL_API_KEY e = None \<or> environ_DEEPL_API_KEY e = Some [] \<or>
           routing_ts (initial_files e) = None \<or>
           (\<exists>c. routing_ts (initial_files e) = Some c \<and> re_search locales_pattern c = None)"
  shows "fst (run e) = SysExit 1 \<and> (\<exists>m. snd (run e) = print m (start e))"
proof (cases rule: run_cases [of e])
  case (started key)
  with assms have *: "routing_ts (fs (start e)) = None \<or>
      (\<exists>c. routing_ts (fs (start e)) = Some c \<and> re_search locales_pattern c = None)"
    by (auto simp: start_def)
  show ?thesis
    by (cases rule: main_cases [of "start e" e]) (use * started in auto)
qed auto

lemma odd_ledger_file:
  "load_hashes f = NonObject kind \<Longrightarrow> translation_hashes f = Doc (NonObject kind)"
  by (cases "translation_hashes f") (simp_all add: load_hashes_def)

text \<open>
  With the module, the credential, the routing file and its locales array in place, the
  run never calls \<^verbatim>\<open>sys.exit\<close>: it returns, or an exception ends it, and then the source
  catalog cannot be parsed or one of the JSON files holds a document that is no object.
\<close>

lemma config_present_runs:
  assumes "deepl_module e" "environ_DEEPL_API_KEY e = Some key" "key \<noteq> []"
    "routing_ts (initial_files e) = Some c" "re_search locales_pattern c \<noteq> None"
  shows "fst (run e) = Returned \<or>
         (\<exists>exn. fst (run e) = Uncaught exn) \<and>
         ((\<exists>d. get_default_locale (initial_files e) = Inr d \<and>
               messages (initial_files e) d = Malformed) \<or>
          (\<exists>l kind. messages (initial_files e) l = Doc (NonObject kind)) \<or>
          (\<exists>kind. translation_hashes (initial_files e) = Doc (NonObject kind)))"
proof -
  have run: "run e = main e (start e)" using assms by (simp add: run_def)
  have fs: "fs (start e) = initial_files e" by (simp add: start_def)
  show ?thesis
  proof (cases rule: main_cases [of "start e" e])
    case (crashed content ls d src_data ledger hashes1 changed_keys w3 exn w4)
    have "\<exists>l kind. messages (fs w3) l = Doc (NonObject kind)"
    proof (rule ccontr)
      assume "\<not> (\<exists>l kind. messages (fs w3) l = Doc (NonObject kind))"
      then have "\<forall>l kind. messages (fs w3) l \<noteq> Doc (NonObject kind)" by blast
      from translate_locales_completes [OF this, of "deepl_translate e" "upper d"
          "collect_all_keys src_data []" hashes1
          "filter (\<lambda>loc. loc \<noteq> d) (findall_codes ls)" 0]
      obtain n1 w1 where
        "translate_locales (deepl_translate e) (upper d) (collect_all_keys src_data []) hashes1
           (filter (\<lambda>loc. loc \<noteq> d) (findall_codes ls)) (0, w3) = (Inr n1, w1)"
        by blast
      with crashed(7) show False by simp
    qed
    with check_changed_world [OF crashed(6)] fs crashed(8) run show ?thesis by auto
  next
    case (odd_ledger content ls d src_data kind)
    with odd_ledger_file [OF odd_ledger(5)] fs run show ?thesis by auto
  next
    case (odd_source content ls d kind exn)
    with fs run show ?thesis by auto
  next
    case (bad_source content ls d)
    with fs run show ?thesis by auto
  qed (use assms run fs in auto)
qed






lemma no_default_locales:
  "map_option findall_codes (re_search locales_pattern no_default_routing) = Some [''de'', ''en'']"
  by code_simp

lemma no_default_default: "re_search default_locale_pattern no_default_routing = None"
  by code_simp

lemma no_locales_locales: "re_search locales_pattern no_locales_routing = None"
  by code_simp

lemma no_default_env_facts:
  "routing_ts (initial_files no_default_env) = Some no_default_routing"
  "messages (initial_files no_default_env) ''de'' = Doc (Object [(''greeting'', Str ''Hallo'')])"
  "deepl_module no_default_env" "environ_DEEPL_API_KEY no_default_env = Some ''secret:fx''"
  "messages (initial_files no_default_env) l \<noteq> Doc (NonObject kind)"
  "translation_hashes (initial_files no_default_env) \<noteq> Doc (NonObject kind)"
  by (simp_all add: no_default_env_def example_env_def rerun_env_def)

text \<open>
  C7, amended: an absent routing file, and a routing file without a locales array, end
  the run with exit code 1 and one printed message, before any translation or write. A
  routing file that has the locales array but no default-locale declaration never makes
  the run call \<^verbatim>\<open>sys.exit\<close>: the default locale is then \<^verbatim>\<open>de\<close>, and the run goes on.
\<close>

theorem routing_errors:
  "((routing_ts (initial_files e) = None \<or>
     (\<exists>c. routing_ts (initial_files e) = Some c \<and> re_search locales_pattern c = None)) \<longrightarrow>
    exit_code (fst (run e)) = 1 \<and> (\<exists>m. stdout (snd (run e)) = [m]) \<and>
    api_calls (snd (run e)) = [] \<and> opened_for_writing (snd (run e)) = []) \<and>
   (deepl_module e \<and> (\<exists>key. environ_DEEPL_API_KEY e = Some key \<and> key \<noteq> []) \<and>
    (\<exists>c. routing_ts (initial_files e) = Some c \<and> re_search locales_pattern c \<noteq> None \<and>
         re_search default_locale_pattern c = None) \<longrightarrow>
    get_default_locale (initial_files e) = Inr ''de'' \<and> (\<forall>n. fst (run e) \<noteq> SysExit n))"
proof (intro conjI impI)
  assume "routing_ts (initial_files e) = None \<or>
     (\<exists>c. routing_ts (initial_files e) = Some c \<and> re_search locales_pattern c = None)"
  then have "\<not> deepl_module e \<or> environ_DEEPL_API_KEY e = None \<or> environ_DEEPL_API_KEY e = Some [] \<or>
           routing_ts (initial_files e) = None \<or>
           (\<exists>c. routing_ts (initial_files e) = Some c \<and> re_search locales_pattern c = None)"
    by blast
  from config_missing_exits [OF this] obtain m
    where r: "fst (run e) = SysExit 1" "snd (run e) = print m (start e)" by blast
  from r show "exit_code (fst (run e)) = 1" by simp
  from r show "\<exists>m. stdout (snd (run e)) = [m]" by (simp add: print_def start_def)
  from r show "api_calls (snd (run e)) = []" by (simp add: print_def start_def)
  from r show "opened_for_writing (snd (run e)) = []" by (simp add: print_def start_def)
next
  assume a: "deepl_module e \<and> (\<exists>key. environ_DEEPL_API_KEY e = Some key \<and> key \<noteq> []) \<and>
    (\<exists>c. routing_ts (initial_files e) = Some c \<and> re_search locales_pattern c \<noteq> None \<and>
         re_search default_locale_pattern c = None)"
  then obtain key c where h: "deepl_module e" "environ_DEEPL_API_KEY e = Some key" "key \<noteq> []"
      "routing_ts (initial_files e) = Some c" "re_search locales_pattern c \<noteq> None"
    and d: "re_search default_locale_pattern c = None" by blast
  from h(4) d show "get_default_locale (initial_files e) = Inr ''de''"
    by (simp add: get_default_locale_def)
  from config_present_runs [OF h] show "\<forall>n. fst (run e) \<noteq> SysExit n" by auto
qed

theorem routing_errors_witness:
  "(routing_ts (initial_files no_locales_env) = None \<or>
     (\<exists>c. routing_ts (initial_files no_locales_env) = Some c \<and> re_search locales_pattern c = None)) \<and>
   exit_code (fst (run no_locales_env)) = 1 \<and> (\<exists>m. stdout (snd (run no_locales_env)) = [m]) \<and>
   (deepl_module no_default_env \<and>
    (\<exists>key. environ_DEEPL_API_KEY no_default_env = Some key \<and> key \<noteq> []) \<and>
    (\<exists>c. routing_ts (initial_files no_default_env) = Some c \<and> re_search locales_pattern c \<noteq> None \<and>
         re_search default_locale_pattern c = None)) \<and>
   get_default_locale (initial_files no_default_env) = Inr ''de'' \<and>
   (\<forall>n. fst (run no_default_env) \<noteq> SysExit n)"
proof -
  have a: "routing_ts (initial_files no_locales_env) = None \<or>
     (\<exists>c. routing_ts (initial_files no_locales_env) = Some c \<and> re_search locales_pattern c = None)"
    by (simp add: no_locales_env_def no_locales_locales)
  have b: "deepl_module no_default_env \<and>
    (\<exists>key. environ_DEEPL_API_KEY no_default_env = Some key \<and> key \<noteq> []) \<and>
    (\<exists>c. routing_ts (initial_files no_default_env) = Some c \<and> re_search locales_pattern c \<noteq> None \<and>
         re_search default_locale_pattern c = None)"
    using no_default_locales by (auto simp: no_default_env_facts no_default_default)
  from a b routing_errors [of no_locales_env] routing_errors [of no_default_env]
  show ?thesis by blast
qed

text \<open>
  C7 as stated fails: the default-locale declaration cannot be located, and the run
  returns with exit code 0.
\<close>

theorem routing_errors_counterexample:
  "routing_ts (initial_files no_default_env) = Some no_default_routing \<and>
   re_search default_locale_pattern no_default_routing = None \<and>
   fst (run no_default_env) = Returned \<and>
   exit_code (fst (run no_default_env)) = 0"
proof -
  have "re_search locales_pattern no_default_routing \<noteq> None"
    using no_default_locales by auto
  from config_present_runs [OF no_default_env_facts(3,4) _ no_default_env_facts(1) this]
  have "fst (run no_default_env) = Returned"
    by (auto simp: get_default_locale_def no_default_env_facts no_default_default)
  then show ?thesis by (simp add: no_default_env_facts no_default_default)
qed

section \<open>The catalog merger and the paths it does not touch\<close>











section \<open>Round trip of flattening and merging\<close>

lemma split_dot_dot_free: "CHR ''.'' \<notin> set k \<Longrightarrow> split_dot k = [k]"
  by (induction k) auto

lemma split_dot_append: "split_dot (a @ ''.'' @ b) = split_dot a @ split_dot b"
proof (induction a)
  case Nil
  show ?case by simp
next
  case (Cons c a)
  obtain w ws where "split_dot a = w # ws"
    using split_dot_not_Nil [of a] by (cases "split_dot a") auto
  with Cons show ?case by simp
qed

lemma split_dot_foldl:
  "pfx \<noteq> [] \<Longrightarrow> \<forall>k\<in>set ks. CHR ''.'' \<notin> set k \<Longrightarrow>
   split_dot (foldl current_path pfx ks) = split_dot pfx @ ks"
proof (induction ks arbitrary: pfx)
  case Nil
  show ?case by simp
next
  case (Cons k ks)
  have step: "current_path pfx k = pfx @ ''.'' @ k"
    using Cons.prems(1) by (simp add: current_path_def)
  have "split_dot (foldl current_path (pfx @ ''.'' @ k) ks) = split_dot (pfx @ ''.'' @ k) @ ks"
    using Cons.prems by (intro Cons.IH) simp_all
  also have "\<dots> = split_dot pfx @ k # ks"
    using Cons.prems(2) by (simp only: split_dot_append) (simp add: split_dot_dot_free)
  finally show ?case by (simp only: foldl_Cons step)
qed

lemma split_dot_path:
  assumes "ks \<noteq> []" "\<forall>k\<in>set ks. CHR ''.'' \<notin> set k" "hd ks \<noteq> [] \<or> length ks = 1"
  shows "split_dot (foldl current_path [] ks) = ks"
proof -
  from assms(1) obtain k ks' where ks: "ks = k # ks'" by (cases ks) auto
  show ?thesis
  proof (cases "k = []")
    case True
    with assms(3) ks show ?thesis by (simp add: current_path_def)
  next
    case False
    have "current_path [] k = k" by (simp add: current_path_def)
    with False assms(2) ks show ?thesis
      by (simp add: split_dot_foldl split_dot_dot_free)
  qed
qed


lemma dict_set_fresh: "k \<notin> fst ` set d \<Longrightarrow> dict_set k v d = d @ [(k, v)]"
  by (induction d) auto

lemma dict_update_fresh:
  "distinct (map fst (result @ other)) \<Longrightarrow> dict_update result other = result @ other"
proof (induction other arbitrary: result)
  case Nil
  show ?case by simp
next
  case (Cons a other)
  obtain k v where a: "a = (k, v)" by (cases a)
  from Cons.prems a have fresh: "k \<notin> fst ` set result" by auto
  from Cons.prems a have "distinct (map fst ((result @ [(k, v)]) @ other))" by auto
  from Cons.IH [OF this] fresh a show ?case by (simp add: dict_set_fresh)
qed

lemma paths_simps:
  "paths pfx [] = []"
  "paths pfx ((k, Str s) # rest) = (current_path pfx k, s) # paths pfx rest"
  "paths pfx ((k, Obj d) # rest) = paths (current_path pfx k) d @ paths pfx rest"
  by (simp_all add: paths_def comp_def case_prod_beta)

lemma collect_is_paths:
  "(distinct (map fst (paths pfx data)) \<longrightarrow> collect_all_keys data pfx = paths pfx data)"
  "(distinct (map fst (result @ paths pfx1 data1)) \<longrightarrow>
      collect_loop data1 pfx1 result = result @ paths pfx1 data1)"
proof (induction data pfx and data1 pfx1 result rule: collect_all_keys_collect_loop.induct)
  case (1 data pfx)
  then show ?case by simp
next
  case (2 pfx result)
  show ?case by (simp add: paths_simps)
next
  case (3 key d rest pfx result)
  show ?case
  proof
    assume dist: "distinct (map fst (result @ paths pfx ((key, Obj d) # rest)))"
    then have inner: "distinct (map fst (paths (current_path pfx key) d))"
      and both: "distinct (map fst (result @ paths (current_path pfx key) d))"
      by (auto simp: paths_simps)
    from "3.IH"(1) inner
    have c: "collect_all_keys d (current_path pfx key) = paths (current_path pfx key) d" by blast
    have r: "dict_update result (collect_all_keys d (current_path pfx key)) =
        result @ paths (current_path pfx key) d"
      using both by (simp only: c dict_update_fresh)
    from dist have "distinct (map fst ((result @ paths (current_path pfx key) d) @ paths pfx rest))"
      by (simp add: paths_simps)
    with "3.IH"(2) [unfolded r]
    have "collect_loop rest pfx (result @ paths (current_path pfx key) d) =
        (result @ paths (current_path pfx key) d) @ paths pfx rest"
      by blast
    then show "collect_loop ((key, Obj d) # rest) pfx result =
        result @ paths pfx ((key, Obj d) # rest)"
      by (simp only: collect_loop.simps r paths_simps append_assoc)
  qed
next
  case (4 key s rest pfx result)
  show ?case
  proof
    assume dist: "distinct (map fst (result @ paths pfx ((key, Str s) # rest)))"
    then have fresh: "current_path pfx key \<notin> fst ` set result"
      by (auto simp: paths_simps)
    from dist have "distinct (map fst ((result @ [(current_path pfx key, s)]) @ paths pfx rest))"
      by (auto simp: paths_simps)
    with "4.IH" [unfolded dict_set_fresh [OF fresh]]
    have "collect_loop rest pfx (result @ [(current_path pfx key, s)]) =
        (result @ [(current_path pfx key, s)]) @ paths pfx rest"
      by blast
    then show "collect_loop ((key, Str s) # rest) pfx result =
        result @ paths pfx ((key, Str s) # rest)"
      by (simp add: dict_set_fresh [OF fresh] paths_simps)
  qed
qed


lemma flat_heads: "(ks, v) \<in> set (flat d) \<Longrightarrow> ks \<noteq> [] \<and> hd ks \<in> fst ` set d"
  by (induction d arbitrary: ks v rule: flat.induct) (auto simp: image_iff)

lemma flat_dot_free:
  "plain_items d \<Longrightarrow> (ks, v) \<in> set (flat d) \<Longrightarrow> \<forall>k\<in>set ks. CHR ''.'' \<notin> set k"
  by (induction d arbitrary: ks v rule: flat.induct) auto

lemma flat_top:
  "\<forall>d'. ([], Obj d') \<notin> set d \<Longrightarrow> (ks, v) \<in> set (flat d) \<Longrightarrow> hd ks \<noteq> [] \<or> length ks = 1"
proof (induction d arbitrary: ks v rule: flat.induct)
  case 1
  then show ?case by simp
next
  case (2 k s rest)
  then show ?case by auto
next
  case (3 k d rest)
  from "3.prems"(1) have "k \<noteq> []" and rest: "\<forall>d'. ([], Obj d') \<notin> set rest" by auto
  from "3.prems"(2) consider ks' where "ks = k # ks'" | "(ks, v) \<in> set (flat rest)" by auto
  then show ?case
  proof cases
    case 1
    with \<open>k \<noteq> []\<close> show ?thesis by simp
  next
    case 2
    with "3.IH"(2) rest show ?thesis by blast
  qed
qed

lemma flat_distinct:
  "plain_items d \<Longrightarrow> distinct (map fst d) \<Longrightarrow> distinct (map fst (flat d))"
proof (induction d rule: flat.induct)
  case 1
  show ?case by simp
next
  case (2 k s rest)
  have "[k] \<notin> fst ` set (flat rest)"
  proof
    assume "[k] \<in> fst ` set (flat rest)"
    then obtain v where "([k], v) \<in> set (flat rest)" by auto
    from flat_heads [OF this] "2.prems"(2) show False by simp
  qed
  with 2 show ?case by simp
next
  case (3 k d rest)
  have inner: "distinct (map fst (flat d))" using 3 by simp
  have outer: "distinct (map fst (flat rest))" using 3 by simp
  have shape: "map fst (map (\<lambda>(ks, v). (k # ks, v)) (flat d)) = map ((#) k) (map fst (flat d))"
    by (simp add: comp_def case_prod_beta)
  have apart: "set (map ((#) k) (map fst (flat d))) \<inter> set (map fst (flat rest)) = {}"
  proof (rule ccontr)
    assume "set (map ((#) k) (map fst (flat d))) \<inter> set (map fst (flat rest)) \<noteq> {}"
    then obtain ks v where "(k # ks, v) \<in> set (flat rest)" by auto
    from flat_heads [OF this] "3.prems"(2) show False by simp
  qed
  have "inj_on ((#) k) (set (map fst (flat d)))" by (rule inj_onI) simp
  with inner have "distinct (map ((#) k) (map fst (flat d)))"
    by (simp only: distinct_map)
  with outer apart show ?case
    by (simp only: flat.simps map_append shape distinct_append)
qed

lemma paths_distinct:
  assumes "plain_items t" "distinct (map fst t)" "\<forall>d. ([], Obj d) \<notin> set t"
  shows "distinct (map fst (paths [] t))"
proof -
  have shape: "map fst (paths [] t) = map (foldl current_path []) (map fst (flat t))"
    by (simp add: paths_def comp_def case_prod_beta)
  have "inj_on (foldl current_path []) (set (map fst (flat t)))"
  proof (rule inj_on_inverseI [where g = split_dot])
    fix ks assume "ks \<in> set (map fst (flat t))"
    then obtain v where m: "(ks, v) \<in> set (flat t)" by auto
    from flat_heads [OF m] flat_dot_free [OF assms(1) m] flat_top [OF assms(3) m]
    show "split_dot (foldl current_path [] ks) = ks" by (intro split_dot_path) auto
  qed
  with flat_distinct [OF assms(1,2)] show ?thesis
    by (simp only: shape distinct_map)
qed

lemma collect_all_keys_paths:
  assumes "plain_items t" "distinct (map fst t)" "\<forall>d. ([], Obj d) \<notin> set t"
  shows "collect_all_keys t [] = paths [] t"
  using collect_is_paths(1) [of "[]" t] paths_distinct [OF assms] by blast


lemma merge_all_by_parts:
  "\<forall>(ks, v)\<in>set kvs. split_dot (f ks) = ks \<Longrightarrow>
   merge_all (map (\<lambda>(ks, v). (f ks, v)) kvs) acc = fold set_parts kvs acc"
proof (induction kvs arbitrary: acc)
  case Nil
  show ?case by (simp add: merge_all_def)
next
  case (Cons a kvs)
  obtain ks v where a: "a = (ks, v)" by (cases a)
  from Cons.prems a have here: "split_dot (f ks) = ks" by simp
  from Cons.prems have "\<forall>(ks, v)\<in>set kvs. split_dot (f ks) = ks" by simp
  from Cons.IH [OF this, of "set_nested acc (f ks) v"] a here show ?case
    by (simp add: merge_all_def set_nested_def set_parts_def Let_def)
qed

lemma dict_set_twice: "dict_set k x (dict_set k y d) = dict_set k x d"
  by (induction d) auto

lemma child_dict_dict_set: "child_dict (dict_set k (Obj d) acc) k = d"
  by (simp add: child_dict_def map_of_dict_set)

lemma child_dict_fresh: "k \<notin> fst ` set acc \<Longrightarrow> child_dict acc k = []"
  by (simp add: child_dict_def map_of_eq_None_iff [THEN iffD2])

lemma set_parts_Cons:
  "ks \<noteq> [] \<Longrightarrow> set_parts (k # ks, v) acc = dict_set k (Obj (set_parts (ks, v) (child_dict acc k))) acc"
  by (simp add: set_parts_def)

lemma fold_set_parts_below:
  "\<forall>(ks, v)\<in>set kvs. ks \<noteq> [] \<Longrightarrow> kvs \<noteq> [] \<Longrightarrow>
   fold set_parts (map (\<lambda>(ks, v). (k # ks, v)) kvs) acc =
     dict_set k (Obj (fold set_parts kvs (child_dict acc k))) acc"
proof (induction kvs arbitrary: acc)
  case Nil
  then show ?case by simp
next
  case (Cons a kvs)
  obtain ks v where a: "a = (ks, v)" by (cases a)
  from Cons.prems a have ne: "ks \<noteq> []" by simp
  let ?acc = "dict_set k (Obj (set_parts (ks, v) (child_dict acc k))) acc"
  show ?case
  proof (cases "kvs = []")
    case True
    with a ne show ?thesis by (simp add: set_parts_Cons)
  next
    case False
    from Cons.prems have "\<forall>(ks, v)\<in>set kvs. ks \<noteq> []" by simp
    from Cons.IH [OF this False, of ?acc]
    have "fold set_parts (map (\<lambda>(ks, v). (k # ks, v)) kvs) ?acc =
        dict_set k (Obj (fold set_parts kvs (set_parts (ks, v) (child_dict acc k)))) acc"
      by (simp only: child_dict_dict_set dict_set_twice)
    with a ne show ?thesis by (simp add: set_parts_Cons)
  qed
qed

lemma flat_not_Nil: "plain_items d \<Longrightarrow> d \<noteq> [] \<Longrightarrow> flat d \<noteq> []"
  by (induction d rule: flat.induct) auto

lemma fold_set_parts_flat:
  "plain_items d \<Longrightarrow> distinct (map fst d) \<Longrightarrow> fst ` set d \<inter> fst ` set acc = {} \<Longrightarrow>
   fold set_parts (flat d) acc = acc @ d"
proof (induction d arbitrary: acc rule: flat.induct)
  case 1
  show ?case by simp
next
  case (2 k s rest)
  from "2.prems"(3) have fresh: "k \<notin> fst ` set acc" by auto
  have "fold set_parts (flat rest) (acc @ [(k, Str s)]) = (acc @ [(k, Str s)]) @ rest"
    using "2.prems" by (intro "2.IH") auto
  with fresh show ?case by (simp add: set_parts_def dict_set_fresh)
next
  case (3 k d rest)
  from "3.prems"(3) have fresh: "k \<notin> fst ` set acc" by auto
  from "3.prems"(1) have d: "d \<noteq> []" "distinct (map fst d)" "plain_items d" by simp_all
  have below: "\<forall>(ks, v)\<in>set (flat d). ks \<noteq> []"
    using flat_heads by blast
  have inner: "fold set_parts (flat d) [] = d"
    using "3.IH"(1) [OF d(3) d(2), of "[]"] by simp
  have "fold set_parts (map (\<lambda>(ks, v). (k # ks, v)) (flat d)) acc = acc @ [(k, Obj d)]"
    using fold_set_parts_below [OF below flat_not_Nil [OF d(3) d(1)], of k acc] fresh
    by (simp add: child_dict_fresh inner dict_set_fresh)
  moreover have "fold set_parts (flat rest) (acc @ [(k, Obj d)]) = (acc @ [(k, Obj d)]) @ rest"
    using "3.prems" by (intro "3.IH"(2)) auto
  ultimately show ?case by simp
qed

text \<open>
  C2, amended: a tree with string keys and string leaves, in which no key holds a dot, no
  object below the top is empty, and the empty string is not the top-level key of an
  object, comes back from flattening with \<open>collect_all_keys\<close> and merging every pair into
  an empty target as the very same tree: same keys, same order, same leaves.
\<close>

theorem flatten_merge_round_trip:
  assumes "distinct (map fst t)" "plain_items t" "\<forall>d. ([], Obj d) \<notin> set t"
  shows "merge_all (collect_all_keys t []) [] = t"
proof -
  have "\<forall>(ks, v)\<in>set (flat t). split_dot (foldl current_path [] ks) = ks"
  proof (clarify)
    fix ks v assume m: "(ks, v) \<in> set (flat t)"
    from flat_heads [OF m] flat_dot_free [OF assms(2) m] flat_top [OF assms(3) m]
    show "split_dot (foldl current_path [] ks) = ks" by (intro split_dot_path) auto
  qed
  from merge_all_by_parts [OF this, of "[]"]
  have "merge_all (paths [] t) [] = fold set_parts (flat t) []"
    by (simp add: paths_def)
  also have "\<dots> = t"
    using fold_set_parts_flat [OF assms(2,1), of "[]"] by simp
  finally show ?thesis
    by (simp only: collect_all_keys_paths [OF assms(2,1,3)])
qed


text \<open>
  \<open>merge_all\<close> is the orchestrator's loop over a batch when the translation service
  gives every text back unchanged.
\<close>

lemma translate_text_echo:
  "fst (translate_text (\<lambda>p. Result (param_text p)) v dl sl w) = v"
  by (simp add: translate_text_def build_params_def Let_def)

lemma translate_keys_echo:
  "fst (translate_keys (\<lambda>p. Result (param_text p)) dl src (map (\<lambda>(p, v). (p, v, Missing)) pairs)
          (t, n, w)) = merge_all pairs t"
proof (induction pairs arbitrary: t n w)
  case Nil
  show ?case by (simp add: merge_all_def)
next
  case (Cons a pairs)
  obtain p v where a: "a = (p, v)" by (cases a)
  obtain r w1 where tt: "translate_text (\<lambda>p. Result (param_text p)) v dl (Some src) w = (r, w1)"
    by fastforce
  with translate_text_echo [of v dl "Some src" w] have "r = v" by simp
  with Cons.IH [of "set_nested t p v" "n + 1" w1] a tt show ?case
    by (simp add: merge_all_def)
qed

theorem flatten_merge_round_trip_witness:
  "distinct (map fst [(''a'', Obj [(''b'', Str ''x''), (''c'', Str ''y'')]), (''d'', Str ''z'')]) \<and>
   plain_items [(''a'', Obj [(''b'', Str ''x''), (''c'', Str ''y'')]), (''d'', Str ''z'')] \<and>
   (\<forall>d. ([], Obj d) \<notin> set [(''a'', Obj [(''b'', Str ''x''), (''c'', Str ''y'')]), (''d'', Str ''z'')]) \<and>
   merge_all (collect_all_keys
       [(''a'', Obj [(''b'', Str ''x''), (''c'', Str ''y'')]), (''d'', Str ''z'')] []) [] =
     [(''a'', Obj [(''b'', Str ''x''), (''c'', Str ''y'')]), (''d'', Str ''z'')]"
proof -
  let ?t = "[(''a'', Obj [(''b'', Str ''x''), (''c'', Str ''y'')]), (''d'', Str ''z'')]"
  have a: "distinct (map fst ?t)" by simp
  have b: "plain_items ?t" by simp
  have c: "\<forall>d. ([], Obj d) \<notin> set ?t" by simp
  from a b c flatten_merge_round_trip [OF a b c] show ?thesis by blast
qed

text \<open>
  C2 as stated fails: a key with a dot becomes two levels, an empty object disappears,
  and an object under the empty top-level key loses that level.
\<close>

theorem flatten_merge_round_trip_counterexample:
  "merge_all (collect_all_keys [(''a.b'', Str ''x'')] []) [] = [(''a'', Obj [(''b'', Str ''x'')])] \<and>
   map_of [(''a.b'', Str ''x'')] ''a.b'' = Some (Str ''x'') \<and>
   map_of (merge_all (collect_all_keys [(''a.b'', Str ''x'')] []) []) ''a.b'' = None \<and>
   merge_all (collect_all_keys [(''a'', Obj [])] []) [] = [] \<and>
   merge_all (collect_all_keys [([], Obj [(''b'', Str ''x'')])] []) [] = [(''b'', Str ''x'')]"
  by (simp add: merge_all_def current_path_def set_nested_def child_dict_def)


section \<open>A failed translation keeps the source text\<close>





















end
